theory Spec2Isabelle
  imports Complex_Main "HOL-Library.Multiset"
begin

section \<open>Python strings\<close>

text \<open>
  A Python \<^verbatim>\<open>str\<close> is a sequence of Unicode code points, here a list of natural numbers.
  The character tables below (\<^verbatim>\<open>isspace\<close>, \<^verbatim>\<open>isalpha\<close>, \<^verbatim>\<open>isdecimal\<close>, \<^verbatim>\<open>isdigit\<close>,
  \<^verbatim>\<open>isnumeric\<close>, \<^verbatim>\<open>lower\<close>) are CPython's for the code points U+0000 to U+00FF and for U+0130
  and U+0307. Code points beyond these are not in the tables (they count as unclassified and
  lower to themselves), so every theorem that rests on the tables restricts its strings to
  code points below U+0100.
\<close>

type_synonym codepoint = nat
type_synonym pystr = "codepoint list"

text \<open>A string literal as a Python string.\<close>

definition str :: "string \<Rightarrow> pystr" where
  "str s = map of_char s"

definition py_isspace :: "codepoint \<Rightarrow> bool" where
  "py_isspace c = ((0x09 \<le> c \<and> c \<le> 0x0D) \<or> (0x1C \<le> c \<and> c \<le> 0x20) \<or> c = 0x85 \<or> c = 0xA0)"

definition py_isdecimal :: "codepoint \<Rightarrow> bool" where
  "py_isdecimal c = (0x30 \<le> c \<and> c \<le> 0x39)"

definition py_isdigit :: "codepoint \<Rightarrow> bool" where
  "py_isdigit c = (py_isdecimal c \<or> c = 0xB2 \<or> c = 0xB3 \<or> c = 0xB9)"

definition py_isalpha :: "codepoint \<Rightarrow> bool" where
  "py_isalpha c = ((0x41 \<le> c \<and> c \<le> 0x5A) \<or> (0x61 \<le> c \<and> c \<le> 0x7A) \<or>
     c = 0xAA \<or> c = 0xB5 \<or> c = 0xBA \<or> (0xC0 \<le> c \<and> c \<le> 0xD6) \<or>
     (0xD8 \<le> c \<and> c \<le> 0xF6) \<or> (0xF8 \<le> c \<and> c \<le> 0xFF) \<or> c = 0x130)"

definition py_isnumeric :: "codepoint \<Rightarrow> bool" where
  "py_isnumeric c = (py_isdigit c \<or> (0xBC \<le> c \<and> c \<le> 0xBE))"

text \<open>
  \<^verbatim>\<open>\w\<close> in a \<^verbatim>\<open>str\<close> pattern: an alphanumeric character (alphabetic, decimal, digit or
  numeric) or the underscore. It is not limited to ASCII.
\<close>

definition re_word :: "codepoint \<Rightarrow> bool" where
  "re_word c = (py_isalpha c \<or> py_isnumeric c \<or> c = 0x5F)"

text \<open>
  \<^verbatim>\<open>str.lower\<close>, one code point at a time. U+0130 is the code point whose lower case is two
  code points, the letter \<open>i\<close> and the combining dot above.
\<close>

definition lower_cp :: "codepoint \<Rightarrow> pystr" where
  "lower_cp c =
     (if 0x41 \<le> c \<and> c \<le> 0x5A then [c + 0x20]
      else if 0xC0 \<le> c \<and> c \<le> 0xDE \<and> c \<noteq> 0xD7 then [c + 0x20]
      else if c = 0x130 then [0x69, 0x307]
      else [c])"

definition py_lower :: "pystr \<Rightarrow> pystr" where
  "py_lower s = concat (map lower_cp s)"

text \<open>
  \<^verbatim>\<open>str.strip()\<close> removes leading and trailing whitespace; \<^verbatim>\<open>str.strip(chars)\<close> and
  \<^verbatim>\<open>str.lstrip(chars)\<close> remove the characters of \<open>chars\<close>.
\<close>

definition py_lstrip :: "(codepoint \<Rightarrow> bool) \<Rightarrow> pystr \<Rightarrow> pystr" where
  "py_lstrip p s = dropWhile p s"

definition py_rstrip :: "(codepoint \<Rightarrow> bool) \<Rightarrow> pystr \<Rightarrow> pystr" where
  "py_rstrip p s = rev (dropWhile p (rev s))"

definition py_strip :: "pystr \<Rightarrow> pystr" where
  "py_strip s = py_rstrip py_isspace (py_lstrip py_isspace s)"

definition py_strip_chars :: "pystr \<Rightarrow> pystr \<Rightarrow> pystr" where
  "py_strip_chars chars s = py_rstrip (\<lambda>c. c \<in> set chars) (py_lstrip (\<lambda>c. c \<in> set chars) s)"

subsection \<open>\<^verbatim>\<open>sanitize_column_name\<close>\<close>

text \<open>
  \<^verbatim>\<open>re.sub(r"[^\w]+", "_", name)\<close> replaces every maximal run of non-word characters by one
  underscore; \<open>in_run\<close> tells that the previous character belonged to a run already replaced.
  \<^verbatim>\<open>re.sub(r"__+", "_", name)\<close> replaces every maximal run of two or more underscores by one.
\<close>

fun sub_nonword_from :: "bool \<Rightarrow> pystr \<Rightarrow> pystr" where
  "sub_nonword_from in_run [] = []"
| "sub_nonword_from in_run (c # cs) =
     (if re_word c then c # sub_nonword_from False cs
      else if in_run then sub_nonword_from True cs
      else 0x5F # sub_nonword_from True cs)"

definition sub_nonword :: "pystr \<Rightarrow> pystr" where
  "sub_nonword s = sub_nonword_from False s"

fun sub_underscores :: "pystr \<Rightarrow> pystr" where
  "sub_underscores [] = []"
| "sub_underscores [c] = [c]"
| "sub_underscores (c # d # cs) =
     (if c = 0x5F \<and> d = 0x5F then sub_underscores (d # cs)
      else c # sub_underscores (d # cs))"

text \<open>
  \<^verbatim>\<open>
  def sanitize_column_name(name):
      name = name.strip()
      name = re.sub(r"[^\w]+", "_", name)
      name = re.sub(r"__+", "_", name)
      name = name.strip("_").lower()
      if name == "":
          name = "col"
      return name
  \<close>
\<close>

definition sanitize_column_name :: "pystr \<Rightarrow> pystr" where
  "sanitize_column_name name0 =
     (let name1 = py_strip name0;
          name2 = sub_nonword name1;
          name3 = sub_underscores name2;
          name4 = py_lower (py_strip_chars (str ''_'') name3)
      in if name4 = [] then str ''col'' else name4)"

text \<open>
  The shape of a sanitized name: the pattern \<^verbatim>\<open>^[a-z0-9_]+$\<close>, no two adjacent underscores,
  no underscore at either end. \<open>clean_name\<close> is the shape in terms of the tables: word
  characters that are their own lower case.
\<close>

definition ident_char :: "codepoint \<Rightarrow> bool" where
  "ident_char c = ((0x61 \<le> c \<and> c \<le> 0x7A) \<or> (0x30 \<le> c \<and> c \<le> 0x39) \<or> c = 0x5F)"

definition matches_ident :: "pystr \<Rightarrow> bool" where
  "matches_ident s = (s \<noteq> [] \<and> list_all ident_char s)"

fun no_double_us :: "pystr \<Rightarrow> bool" where
  "no_double_us [] = True"
| "no_double_us [c] = True"
| "no_double_us (c # d # cs) = ((c \<noteq> 0x5F \<or> d \<noteq> 0x5F) \<and> no_double_us (d # cs))"

definition no_edge_us :: "pystr \<Rightarrow> bool" where
  "no_edge_us s = (s = [] \<or> (hd s \<noteq> 0x5F \<and> last s \<noteq> 0x5F))"

definition lower1 :: "codepoint \<Rightarrow> codepoint" where
  "lower1 c = (if (0x41 \<le> c \<and> c \<le> 0x5A) \<or> (0xC0 \<le> c \<and> c \<le> 0xDE \<and> c \<noteq> 0xD7) then c + 0x20 else c)"

definition lowered_word :: "codepoint \<Rightarrow> bool" where
  "lowered_word c = (re_word c \<and> lower_cp c = [c])"

definition clean_name :: "pystr \<Rightarrow> bool" where
  "clean_name r = (r \<noteq> [] \<and> list_all lowered_word r \<and> no_double_us r \<and> no_edge_us r)"

definition strip_us :: "pystr \<Rightarrow> pystr" where
  "strip_us s = py_strip_chars (str ''_'') s"

definition core_name :: "pystr \<Rightarrow> pystr" where
  "core_name x = strip_us (sub_underscores (sub_nonword (py_strip x)))"

section \<open>Type classifier\<close>

datatype inferred_type = TInt | TFloat | TDate | TString

text \<open>
  The literals \<^verbatim>\<open>0.9\<close> and \<^verbatim>\<open>0.75\<close> are taken as the rationals they denote. Python divides two
  integers exactly and rounds the quotient once, so for fewer than \<open>2^50\<close> values the
  comparison \<^verbatim>\<open>int_ok / total >= 0.9\<close> of the floats agrees with the comparison of the exact
  quotients.
\<close>

definition SAMPLE_ROWS :: nat where
  "SAMPLE_ROWS = 1000"

definition NUMERIC_THRESHOLD :: real where
  "NUMERIC_THRESHOLD = 9 / 10"

definition DATE_THRESHOLD :: real where
  "DATE_THRESHOLD = 3 / 4"

subsection \<open>The builtins \<^verbatim>\<open>str.isdigit\<close>, \<^verbatim>\<open>str.replace\<close>, \<^verbatim>\<open>int\<close> and \<^verbatim>\<open>float\<close>\<close>

definition str_isdigit :: "pystr \<Rightarrow> bool" where
  "str_isdigit s = (s \<noteq> [] \<and> list_all py_isdigit s)"

definition remove_commas :: "pystr \<Rightarrow> pystr" where
  "remove_commas s = filter (\<lambda>c. c \<noteq> 0x2C) s"

definition is_sign :: "codepoint \<Rightarrow> bool" where
  "is_sign c = (c = 0x2B \<or> c = 0x2D)"

definition drop_sign :: "pystr \<Rightarrow> pystr" where
  "drop_sign s = (case s of [] \<Rightarrow> [] | c # cs \<Rightarrow> if is_sign c then cs else s)"

text \<open>
  \<^verbatim>\<open>int(s)\<close> in base ten: surrounding whitespace is ignored, one sign is allowed, then decimal
  digits, with single underscores allowed between digits; anything else raises
  \<^verbatim>\<open>ValueError\<close>, here \<open>None\<close>. The limit of recent CPython versions on the length of the
  digit string (4300 digits unless configured) is not part of the model.
\<close>

fun int_digits :: "bool \<Rightarrow> int \<Rightarrow> pystr \<Rightarrow> int option" where
  "int_digits after_digit acc [] = (if after_digit then Some acc else None)"
| "int_digits after_digit acc (c # cs) =
     (if py_isdecimal c then int_digits True (acc * 10 + int (c - 0x30)) cs
      else if c = 0x5F \<and> after_digit then int_digits False acc cs
      else None)"

definition py_int :: "pystr \<Rightarrow> int option" where
  "py_int s =
     (case py_strip s of
        [] \<Rightarrow> None
      | c # cs \<Rightarrow>
          if c = 0x2D then map_option uminus (int_digits False 0 cs)
          else if c = 0x2B then int_digits False 0 cs
          else int_digits False 0 (c # cs))"

text \<open>
  \<^verbatim>\<open>float(s)\<close>: surrounding whitespace is ignored, one sign is allowed, then either a decimal
  numeral (digits with an optional fraction and an optional exponent, single underscores
  allowed between digits) or one of the words \<open>inf\<close>, \<open>infinity\<close>, \<open>nan\<close> in any letter
  case. The result records which of the three forms was read; \<open>None\<close> is \<^verbatim>\<open>ValueError\<close>.
\<close>

fun skip_digits :: "pystr \<Rightarrow> pystr" where
  "skip_digits [] = []"
| "skip_digits [c] = (if py_isdecimal c then [] else [c])"
| "skip_digits (c # d # ds) =
     (if py_isdecimal c then skip_digits (d # ds)
      else if c = 0x5F \<and> py_isdecimal d then skip_digits ds
      else c # d # ds)"

definition digitpart :: "pystr \<Rightarrow> pystr option" where
  "digitpart s = (case s of [] \<Rightarrow> None | c # cs \<Rightarrow> if py_isdecimal c then Some (skip_digits cs) else None)"

definition exponent_or_end :: "pystr \<Rightarrow> bool" where
  "exponent_or_end s =
     (case s of
        [] \<Rightarrow> True
      | c # cs \<Rightarrow> (c = 0x65 \<or> c = 0x45) \<and> digitpart (drop_sign cs) = Some [])"

definition floatnumber :: "pystr \<Rightarrow> bool" where
  "floatnumber s =
     (case digitpart s of
        Some rest \<Rightarrow>
          (case rest of
             [] \<Rightarrow> True
           | c # cs \<Rightarrow>
               if c = 0x2E then
                 (case digitpart cs of Some rest' \<Rightarrow> exponent_or_end rest' | None \<Rightarrow> exponent_or_end cs)
               else exponent_or_end rest)
      | None \<Rightarrow>
          (case s of
             [] \<Rightarrow> False
           | c # cs \<Rightarrow>
               c = 0x2E \<and> (case digitpart cs of Some rest' \<Rightarrow> exponent_or_end rest' | None \<Rightarrow> False)))"

definition ascii_lower :: "codepoint \<Rightarrow> codepoint" where
  "ascii_lower c = (if 0x41 \<le> c \<and> c \<le> 0x5A then c + 0x20 else c)"

datatype float_text = DecimalText | InfinityText | NanText

definition py_float :: "pystr \<Rightarrow> float_text option" where
  "py_float s =
     (let body = drop_sign (py_strip s); word = map ascii_lower body in
      if word = str ''inf'' \<or> word = str ''infinity'' then Some InfinityText
      else if word = str ''nan'' then Some NanText
      else if floatnumber body then Some DecimalText
      else None)"

subsection \<open>\<^verbatim>\<open>infer_column_types_from_sample\<close>\<close>

text \<open>
  The loop body, for one value \<open>v\<close> of \<^verbatim>\<open>non_null[:SAMPLE_ROWS]\<close>:
  \<^verbatim>\<open>
  s = str(v).strip()
  try:
      if "." not in s and (s.lstrip("+-").isdigit()):
          _ = int(s); int_ok += 1; float_ok += 1
          continue
  except Exception: pass
  try:
      _ = float(s.replace(",", "")); float_ok += 1
  except Exception: pass
  try:
      date_parser.parse(s, fuzzy=False); date_ok += 1
  except Exception: pass
  \<close>
  The parser of \<^verbatim>\<open>dateutil\<close> is not part of the repository: \<open>date_parse s\<close> tells whether
  \<^verbatim>\<open>date_parser.parse(s, fuzzy=False)\<close> returns without an exception.
\<close>

definition int_check :: "pystr \<Rightarrow> bool" where
  "int_check s =
     (0x2E \<notin> set s \<and> str_isdigit (py_lstrip is_sign s) \<and> py_int s \<noteq> None)"

definition float_check :: "pystr \<Rightarrow> bool" where
  "float_check s = (py_float (remove_commas s) \<noteq> None)"

type_synonym tally = "nat \<times> nat \<times> nat"

fun tally_step :: "(pystr \<Rightarrow> bool) \<Rightarrow> tally \<Rightarrow> pystr \<Rightarrow> tally" where
  "tally_step date_parse (int_ok, float_ok, date_ok) v =
     (let s = py_strip v in
      if int_check s then (int_ok + 1, float_ok + 1, date_ok)
      else
        let float_ok' = (if float_check s then float_ok + 1 else float_ok);
            date_ok' = (if date_parse s then date_ok + 1 else date_ok)
        in (int_ok, float_ok', date_ok'))"

text \<open>
  The column: \<open>None\<close> is a null value. \<open>total\<close> is the length of \<open>non_null\<close>, taken before
  the slice \<^verbatim>\<open>non_null[:SAMPLE_ROWS]\<close> that the loop runs over.
\<close>

definition non_null :: "pystr option list \<Rightarrow> pystr list" where
  "non_null ser = filter (\<lambda>s. py_strip s \<noteq> []) (List.map_filter (\<lambda>v. v) ser)"

definition decide :: "nat \<Rightarrow> tally \<Rightarrow> inferred_type" where
  "decide total_n t =
     (case t of (int_ok, float_ok, date_ok) \<Rightarrow>
        if total_n > 0 \<and> real int_ok / real total_n \<ge> NUMERIC_THRESHOLD then TInt
        else if total_n > 0 \<and> real float_ok / real total_n \<ge> NUMERIC_THRESHOLD then TFloat
        else if total_n > 0 \<and> real date_ok / real total_n \<ge> DATE_THRESHOLD then TDate
        else TString)"

definition infer_column :: "(pystr \<Rightarrow> bool) \<Rightarrow> pystr option list \<Rightarrow> inferred_type" where
  "infer_column date_parse ser =
     (let nn = non_null ser in
      if nn = [] then TString
      else
        let total_n = length nn;
            t = foldl (tally_step date_parse) (0, 0, 0) (take SAMPLE_ROWS nn)
        in decide total_n t)"

definition infer_column_types_from_sample ::
    "(pystr \<Rightarrow> bool) \<Rightarrow> (pystr \<times> pystr option list) list \<Rightarrow> (pystr \<times> inferred_type) list" where
  "infer_column_types_from_sample date_parse df_sample =
     map (\<lambda>(col, ser). (col, infer_column date_parse ser)) df_sample"

text \<open>
  A small date recogniser for the closed examples: a year from 1000 to 2999 on its own, or
  \<^verbatim>\<open>YYYY-MM-DD\<close> with a month from 01 to 12 and a day from 01 to 28.
\<close>

fun year_date :: "pystr \<Rightarrow> bool" where
  "year_date [a, b, c, d] = (a \<in> {0x31, 0x32} \<and> py_isdecimal b \<and> py_isdecimal c \<and> py_isdecimal d)"
| "year_date [a, b, c, d, h, m, n, k, x, y] =
     (a \<in> {0x31, 0x32} \<and> py_isdecimal b \<and> py_isdecimal c \<and> py_isdecimal d \<and> h = 0x2D
      \<and> ((m = 0x30 \<and> 0x31 \<le> n \<and> n \<le> 0x39) \<or> (m = 0x31 \<and> 0x30 \<le> n \<and> n \<le> 0x32)) \<and> k = 0x2D
      \<and> ((x = 0x30 \<and> 0x31 \<le> y \<and> y \<le> 0x39) \<or> (x = 0x31 \<and> py_isdecimal y) \<or> (x = 0x32 \<and> 0x30 \<le> y \<and> y \<le> 0x38)))"
| "year_date _ = False"

text \<open>
  What the three tallies count: the values that pass the integer check, those that pass the
  integer check or the float parse, and those that fail the integer check and parse as a date.
\<close>

definition int_like :: "pystr \<Rightarrow> bool" where
  "int_like v = int_check (py_strip v)"

definition float_like :: "pystr \<Rightarrow> bool" where
  "float_like v = (int_check (py_strip v) \<or> float_check (py_strip v))"

definition date_like :: "(pystr \<Rightarrow> bool) \<Rightarrow> pystr \<Rightarrow> bool" where
  "date_like date_parse v = (\<not> int_check (py_strip v) \<and> date_parse (py_strip v))"

definition count_of :: "('a \<Rightarrow> bool) \<Rightarrow> 'a list \<Rightarrow> nat" where
  "count_of p xs = length (filter p xs)"

definition nine_of_ten :: "pystr option list" where
  "nine_of_ten = replicate 9 (Some (str ''42'')) @ [Some (str ''abc'')]"

definition eighty_nine_of_hundred :: "pystr option list" where
  "eighty_nine_of_hundred = replicate 89 (Some (str ''42'')) @ replicate 11 (Some (str ''abc''))"

definition years_column :: "pystr option list" where
  "years_column = [Some (str ''2021''), Some (str ''2022''), None, Some (str '' 1999 '')]"

section \<open>Caster and pipeline\<close>

subsection \<open>Frames and the library's parsers\<close>

text \<open>
  A polars frame is the list of its columns, each a name and its values, all of one height; a
  null value is \<open>None\<close>. \<^verbatim>\<open>scan_csv\<close> infers a type for every column: a column is read
  either as strings (\<open>Utf8\<close>) or with some other type (\<open>NonUtf8\<close>, numbers for instance). Of
  a column that is not a string column the model keeps what the source looks at, the text
  \<^verbatim>\<open>str(v)\<close> of every value.
\<close>

type_synonym 'a frame = "(pystr \<times> 'a list) list"

datatype series = Utf8 "pystr option list" | NonUtf8 "pystr option list"

type_synonym lazyframe = "(pystr \<times> series) list"

datatype ('f, 'd) cell = IntCell int | FloatCell 'f | DateCell 'd | StrCell pystr

text \<open>
  The exceptions of a run. \<open>CollectError\<close> stands for what polars raises while it evaluates
  the expressions: a \<^verbatim>\<open>str\<close> expression on a column that is not a string column, or
  \<^verbatim>\<open>strptime\<close> without a format on a column from which no format can be inferred.
\<close>

datatype error = NoSuchFile | ScanError | DuplicateError | CollectError | StrictCastError | WriteFailed

text \<open>
  The reader, the writer and the parsers behind \<^verbatim>\<open>cast\<close> and \<^verbatim>\<open>strptime\<close> belong to the
  library and are parameters, with floats and datetimes as abstract types \<open>'f\<close> and \<open>'d\<close>.
  \<^verbatim>\<open>strptime\<close> is called with \<^verbatim>\<open>fmt=None\<close>: the library infers one format from the values of
  the column (\<open>infer_datetime_format\<close>, \<open>None\<close> when it finds none) and parses every value
  with it. \<open>dateutil_parse\<close> is the parser of the classifier.
\<close>

record ('f, 'd) env =
  dateutil_parse :: "pystr \<Rightarrow> bool"
  parse_int64 :: "pystr \<Rightarrow> int option"
  parse_float64 :: "pystr \<Rightarrow> 'f option"
  infer_datetime_format :: "pystr option list \<Rightarrow> pystr option"
  strptime_datetime :: "pystr \<Rightarrow> pystr \<Rightarrow> 'd option"
  scan_csv :: "pystr \<Rightarrow> lazyframe option"
  write_csv_text :: "pystr list \<Rightarrow> ('f, 'd) cell option list list \<Rightarrow> pystr"

definition to_list :: "series \<Rightarrow> pystr option list" where
  "to_list ser = (case ser of Utf8 vs \<Rightarrow> vs | NonUtf8 vs \<Rightarrow> vs)"

definition height :: "'a frame \<Rightarrow> nat" where
  "height df = (case df of [] \<Rightarrow> 0 | (name, col) # _ \<Rightarrow> length col)"

definition frame_rows :: "'a frame \<Rightarrow> 'a list list" where
  "frame_rows df = map (\<lambda>i. map (\<lambda>(name, col). col ! i) df) [0..<height df]"

definition limit :: "nat \<Rightarrow> lazyframe \<Rightarrow> lazyframe" where
  "limit n lf =
     map (\<lambda>(name, ser). (name, case ser of Utf8 vs \<Rightarrow> Utf8 (take n vs) | NonUtf8 vs \<Rightarrow> NonUtf8 (take n vs))) lf"

definition rename :: "(pystr \<times> pystr) list \<Rightarrow> (pystr \<times> 'c) list \<Rightarrow> (pystr \<times> 'c) list" where
  "rename rename_map df =
     map (\<lambda>(name, col). (case map_of (rev rename_map) name of Some new \<Rightarrow> new | None \<Rightarrow> name, col)) df"

text \<open>\<^verbatim>\<open>.str.strip()\<close> removes the leading and trailing characters that Rust counts as whitespace.\<close>

definition rust_is_whitespace :: "codepoint \<Rightarrow> bool" where
  "rust_is_whitespace c = ((0x09 \<le> c \<and> c \<le> 0x0D) \<or> c = 0x20 \<or> c = 0x85 \<or> c = 0xA0)"

definition str_strip :: "pystr \<Rightarrow> pystr" where
  "str_strip s = py_rstrip rust_is_whitespace (py_lstrip rust_is_whitespace s)"

subsection \<open>The cast expressions of \<^verbatim>\<open>clean_csv\<close>\<close>

text \<open>
  \<^verbatim>\<open>cast(dtype, strict)\<close> and \<^verbatim>\<open>strptime(dtype, fmt, strict)\<close> on a string column: a null stays
  null; a value that does not parse raises when \<open>strict\<close> holds and becomes null otherwise.
  The source passes \<^verbatim>\<open>strict=False\<close> everywhere. Every expression of the source starts in the
  \<^verbatim>\<open>str\<close> namespace, which a column that is not a string column does not have.
\<close>

fun cast_value :: "bool \<Rightarrow> (pystr \<Rightarrow> 'a option) \<Rightarrow> pystr option \<Rightarrow> error + 'a option" where
  "cast_value strict parse None = Inr None"
| "cast_value strict parse (Some s) =
     (case parse s of
        Some x \<Rightarrow> Inr (Some x)
      | None \<Rightarrow> if strict then Inl StrictCastError else Inr None)"

fun cast_series :: "bool \<Rightarrow> (pystr \<Rightarrow> 'a option) \<Rightarrow> pystr option list \<Rightarrow> error + 'a option list" where
  "cast_series strict parse [] = Inr []"
| "cast_series strict parse (v # vs) =
     (case cast_value strict parse v of
        Inl e \<Rightarrow> Inl e
      | Inr x \<Rightarrow> (case cast_series strict parse vs of Inl e \<Rightarrow> Inl e | Inr xs \<Rightarrow> Inr (x # xs)))"

definition replace_all_commas :: "pystr option list \<Rightarrow> pystr option list" where
  "replace_all_commas col = map (map_option remove_commas) col"

definition cast_expr ::
    "('f, 'd) env \<Rightarrow> inferred_type \<Rightarrow> series \<Rightarrow> error + ('f, 'd) cell option list" where
  "cast_expr env t ser =
     (case ser of
        NonUtf8 vs \<Rightarrow> Inl CollectError
      | Utf8 col \<Rightarrow>
          (case t of
             TInt \<Rightarrow>
               cast_series False (\<lambda>s. map_option IntCell (parse_int64 env s)) (replace_all_commas col)
           | TFloat \<Rightarrow>
               cast_series False (\<lambda>s. map_option FloatCell (parse_float64 env s)) (replace_all_commas col)
           | TDate \<Rightarrow>
               (case infer_datetime_format env col of
                  None \<Rightarrow> Inl CollectError
                | Some fmt \<Rightarrow>
                    cast_series False (\<lambda>s. map_option DateCell (strptime_datetime env fmt s)) col)
           | TString \<Rightarrow> Inr (map (map_option (\<lambda>s. StrCell (str_strip s))) col)))"

fun with_columns ::
    "('f, 'd) env \<Rightarrow> (pystr \<times> inferred_type) list \<Rightarrow> lazyframe
       \<Rightarrow> error + ('f, 'd) cell option frame" where
  "with_columns env inferred [] = Inr []"
| "with_columns env inferred ((col, ser) # lf) =
     (let t = (case map_of (rev inferred) col of Some t \<Rightarrow> t | None \<Rightarrow> TString) in
      case cast_expr env t ser of
        Inl e \<Rightarrow> Inl e
      | Inr ser' \<Rightarrow>
          (case with_columns env inferred lf of Inl e \<Rightarrow> Inl e | Inr df' \<Rightarrow> Inr ((col, ser') # df')))"





subsection \<open>Duplicate removal and the run\<close>

text \<open>
  \<^verbatim>\<open>lf.unique()\<close> with its default arguments compares all columns and does not ask for
  \<^verbatim>\<open>maintain_order\<close>: the result holds every distinct row once, in an order the library
  does not promise. \<open>first_seen\<close> is the order the spec describes: each row at its first
  occurrence.
\<close>

definition unique_rel :: "'a list \<Rightarrow> 'a list \<Rightarrow> bool" where
  "unique_rel rows out = (distinct out \<and> set out = set rows)"

fun keep_first :: "'a list \<Rightarrow> 'a list \<Rightarrow> 'a list" where
  "keep_first seen [] = []"
| "keep_first seen (r # rows) =
     (if r \<in> set seen then keep_first seen rows else r # keep_first (r # seen) rows)"

definition first_seen :: "'a list \<Rightarrow> 'a list" where
  "first_seen rows = keep_first [] rows"

text \<open>
  Lines 83 to 139 of \<^verbatim>\<open>clean_csv\<close>: the sample, the renaming, the inference and the casts,
  for a frame whose sanitized names are distinct. The classifier reads \<^verbatim>\<open>str(v)\<close> of the sampled
  values; the casts run over the whole frame when it is collected.
\<close>

definition cast_frame ::
    "('f, 'd) env \<Rightarrow> nat \<Rightarrow> lazyframe \<Rightarrow> error + ('f, 'd) cell option frame" where
  "cast_frame env sample_rows lf =
     (let sample_df = limit sample_rows lf;
          orig_cols = map fst sample_df;
          sanitized_names = map sanitize_column_name orig_cols;
          rename_map = zip orig_cols sanitized_names;
          lf' = rename rename_map lf;
          sample_df' = rename rename_map sample_df;
          inferred = infer_column_types_from_sample (dateutil_parse env)
                       (map (\<lambda>(col, ser). (col, to_list ser)) sample_df')
      in with_columns env inferred lf')"

text \<open>
  The file system maps a path to the text of its file. \<^verbatim>\<open>df_out.write_csv(output_path)\<close>
  opens the destination, which creates or truncates it, and writes the text. \<open>fault\<close> says
  what the file system does to this write: nothing; a failure at opening, which raises and
  leaves the destination as it was; or a failure once \<open>n\<close> characters are written, which
  leaves these \<open>n\<close> characters at the destination and is either raised or lost by the
  writer (the flag). The source does not look at the outcome of the write.
\<close>

type_synonym path = pystr
type_synonym fs = "path \<rightharpoonup> pystr"

datatype fault = NoFault | FailOpen | FailAfter nat bool

definition write_csv :: "fault \<Rightarrow> fs \<Rightarrow> path \<Rightarrow> pystr \<Rightarrow> fs \<times> (error + unit)" where
  "write_csv flt files p content =
     (case flt of
        NoFault \<Rightarrow> (files(p \<mapsto> content), Inr ())
      | FailOpen \<Rightarrow> (files, Inl WriteFailed)
      | FailAfter n raised \<Rightarrow>
          (files(p \<mapsto> take n content), if raised then Inl WriteFailed else Inr ()))"

text \<open>
  A run of \<^verbatim>\<open>clean_csv\<close>. Every exception leaves the function as it is raised: reading the
  input, renaming to colliding names, collecting the frame, writing. The rows that \<^verbatim>\<open>unique\<close>
  returns are any result the library may give.
\<close>

inductive clean_csv ::
    "('f, 'd) env \<Rightarrow> fault \<Rightarrow> nat \<Rightarrow> fs \<Rightarrow> path \<Rightarrow> path \<Rightarrow> fs \<times> (error + unit) \<Rightarrow> bool"
  for env flt sample_rows files input_path output_path
where
  no_input:
    "files input_path = None \<Longrightarrow>
     clean_csv env flt sample_rows files input_path output_path (files, Inl NoSuchFile)"
| scan_failed:
    "files input_path = Some content \<Longrightarrow> scan_csv env content = None \<Longrightarrow>
     clean_csv env flt sample_rows files input_path output_path (files, Inl ScanError)"
| duplicate_names:
    "files input_path = Some content \<Longrightarrow> scan_csv env content = Some lf \<Longrightarrow>
     \<not> distinct (map (sanitize_column_name \<circ> fst) lf) \<Longrightarrow>
     clean_csv env flt sample_rows files input_path output_path (files, Inl DuplicateError)"
| collect_failed:
    "files input_path = Some content \<Longrightarrow> scan_csv env content = Some lf \<Longrightarrow>
     distinct (map (sanitize_column_name \<circ> fst) lf) \<Longrightarrow>
     cast_frame env sample_rows lf = Inl e \<Longrightarrow>
     clean_csv env flt sample_rows files input_path output_path (files, Inl e)"
| written:
    "files input_path = Some content \<Longrightarrow> scan_csv env content = Some lf \<Longrightarrow>
     distinct (map (sanitize_column_name \<circ> fst) lf) \<Longrightarrow>
     cast_frame env sample_rows lf = Inr df \<Longrightarrow>
     unique_rel (frame_rows df) df_out \<Longrightarrow>
     clean_csv env flt sample_rows files input_path output_path
       (write_csv flt files output_path (write_csv_text env (map fst df) df_out))"

subsection \<open>A small environment for the closed examples\<close>

text \<open>
  Stand-ins for the library where an example needs a concrete one: a reader of comma-separated
  text without quoting that reads every column as text, a writer, and parsers for signed
  decimal integers in the range of \<open>Int64\<close> and decimal floats kept as text. The date parser
  of the classifier accepts the dates of \<open>year_date\<close> and dates such as \<open>Jan 5 2021\<close>; the
  format inference knows the one format \<^verbatim>\<open>%Y-%m-%d\<close> and takes it from the first value that
  is not null.
\<close>

fun digits_value :: "int \<Rightarrow> pystr \<Rightarrow> int" where
  "digits_value acc [] = acc"
| "digits_value acc (c # cs) = digits_value (acc * 10 + int (c - 0x30)) cs"

definition int64_of_decimal :: "pystr \<Rightarrow> int option" where
  "int64_of_decimal s =
     (let ds = drop_sign s;
          v = (if s \<noteq> [] \<and> hd s = 0x2D then - digits_value 0 ds else digits_value 0 ds)
      in if ds \<noteq> [] \<and> list_all py_isdecimal ds \<and> - (2 ^ 63) \<le> v \<and> v < 2 ^ 63 then Some v else None)"

fun split_on :: "codepoint \<Rightarrow> pystr \<Rightarrow> pystr list" where
  "split_on sep [] = [[]]"
| "split_on sep (c # cs) =
     (if c = sep then [] # split_on sep cs
      else (case split_on sep cs of [] \<Rightarrow> [[c]] | f # fs \<Rightarrow> (c # f) # fs))"

definition plain_scan_csv :: "pystr \<Rightarrow> lazyframe option" where
  "plain_scan_csv text =
     (case filter (\<lambda>l. l \<noteq> []) (split_on 0x0A text) of
        [] \<Rightarrow> None
      | header # lines \<Rightarrow>
          let labels = split_on 0x2C header;
              rows = map (split_on 0x2C) lines
          in if list_all (\<lambda>r. length r = length labels) rows
             then Some (map (\<lambda>j. (labels ! j, Utf8 (map (\<lambda>r. if r ! j = [] then None else Some (r ! j)) rows)))
                          [0..<length labels])
             else None)"

fun join_with :: "codepoint \<Rightarrow> pystr list \<Rightarrow> pystr" where
  "join_with sep [] = []"
| "join_with sep [f] = f"
| "join_with sep (f # g # fs) = f @ sep # join_with sep (g # fs)"

fun digits_of_nat :: "nat \<Rightarrow> pystr" where
  "digits_of_nat n = (if n < 10 then [0x30 + n] else digits_of_nat (n div 10) @ [0x30 + n mod 10])"

definition cell_text :: "(pystr, pystr) cell option \<Rightarrow> pystr" where
  "cell_text v =
     (case v of
        None \<Rightarrow> []
      | Some (IntCell i) \<Rightarrow> (if i < 0 then 0x2D # digits_of_nat (nat (- i)) else digits_of_nat (nat i))
      | Some (FloatCell t) \<Rightarrow> t
      | Some (DateCell t) \<Rightarrow> t
      | Some (StrCell t) \<Rightarrow> t)"

definition plain_write_csv_text :: "pystr list \<Rightarrow> (pystr, pystr) cell option list list \<Rightarrow> pystr" where
  "plain_write_csv_text names rows =
     concat (map (\<lambda>fields. join_with 0x2C fields @ [0x0A]) (names # map (map cell_text) rows))"

definition month_name_date :: "pystr \<Rightarrow> bool" where
  "month_name_date s =
     (take 3 s \<in> set (map str [''Jan'', ''Feb'', ''Mar'', ''Apr'', ''May'', ''Jun'', ''Jul'', ''Aug'',
                                 ''Sep'', ''Oct'', ''Nov'', ''Dec''])
      \<and> (case drop 3 s of
            [sp, d, sp', a, b, c, e] \<Rightarrow>
              sp = 0x20 \<and> 0x31 \<le> d \<and> d \<le> 0x39 \<and> sp' = 0x20 \<and> year_date [a, b, c, e]
          | [sp, d, d', sp', a, b, c, e] \<Rightarrow>
              sp = 0x20 \<and> ((d = 0x31 \<and> py_isdecimal d') \<or> (d = 0x32 \<and> 0x30 \<le> d' \<and> d' \<le> 0x38))
              \<and> sp' = 0x20 \<and> year_date [a, b, c, e]
          | _ \<Rightarrow> False))"

definition iso_date :: "pystr \<Rightarrow> bool" where
  "iso_date s = (length s = 10 \<and> year_date s)"

definition plain_infer_format :: "pystr option list \<Rightarrow> pystr option" where
  "plain_infer_format col =
     (case List.map_filter (\<lambda>v. v) col of
        [] \<Rightarrow> None
      | s # _ \<Rightarrow> if iso_date s then Some (str ''%Y-%m-%d'') else None)"

definition plain_env :: "(pystr, pystr) env" where
  "plain_env =
     \<lparr> dateutil_parse = (\<lambda>s. year_date s \<or> month_name_date s),
       parse_int64 = int64_of_decimal,
       parse_float64 = (\<lambda>s. if py_float s = Some DecimalText then Some s else None),
       infer_datetime_format = plain_infer_format,
       strptime_datetime = (\<lambda>fmt s. if fmt = str ''%Y-%m-%d'' \<and> iso_date s then Some s else None),
       scan_csv = plain_scan_csv,
       write_csv_text = plain_write_csv_text \<rparr>"

definition people_csv :: pystr where
  "people_csv = str ''Name ,City'' @ [0x0A] @ str ''Alice,Rome'' @ [0x0A] @ str ''Bob,Oslo'' @ [0x0A]
     @ str ''Alice,Rome'' @ [0x0A]"

definition people_lf :: lazyframe where
  "people_lf =
     [(str ''Name '', Utf8 [Some (str ''Alice''), Some (str ''Bob''), Some (str ''Alice'')]),
      (str ''City'', Utf8 [Some (str ''Rome''), Some (str ''Oslo''), Some (str ''Rome'')])]"

definition people_rows :: "(pystr, pystr) cell option list list" where
  "people_rows =
     [[Some (StrCell (str ''Alice'')), Some (StrCell (str ''Rome''))],
      [Some (StrCell (str ''Bob'')), Some (StrCell (str ''Oslo''))],
      [Some (StrCell (str ''Alice'')), Some (StrCell (str ''Rome''))]]"

definition people_df :: "(pystr, pystr) cell option frame" where
  "people_df = [(str ''name'', map (\<lambda>r. r ! 0) people_rows), (str ''city'', map (\<lambda>r. r ! 1) people_rows)]"

definition people_files :: fs where
  "people_files = [str ''in.csv'' \<mapsto> people_csv, str ''out.csv'' \<mapsto> str ''stale'']"

definition when_csv :: pystr where
  "when_csv = str ''When'' @ [0x0A] @ str ''Jan 5 2021'' @ [0x0A]"

definition when_files :: fs where
  "when_files = [str ''in.csv'' \<mapsto> when_csv, str ''out.csv'' \<mapsto> str ''stale'']"


definition jan_alone :: "pystr option list" where
  "jan_alone = [Some (str ''Jan 5 2021'')]"





definition bob_first_csv :: pystr where
  "bob_first_csv = str ''name,city'' @ [0x0A] @ str ''Bob,Oslo'' @ [0x0A] @ str ''Alice,Rome'' @ [0x0A]"

definition alice_first_csv :: pystr where
  "alice_first_csv = str ''name,city'' @ [0x0A] @ str ''Alice,Rome'' @ [0x0A] @ str ''Bob,Oslo'' @ [0x0A]"

definition partial_csv :: pystr where
  "partial_csv = str ''name,city'' @ [0x0A] @ str ''Al''"

definition emptied_files :: fs where
  "emptied_files = people_files(str ''out.csv'' \<mapsto> [])"


section \<open>Properties of the sanitizer\<close>
lemmas cp_defs = re_word_def py_isalpha_def py_isnumeric_def py_isdigit_def py_isdecimal_def
  py_isspace_def lower_cp_def lower1_def

lemma lower_cp_lower1: "c \<noteq> 0x130 \<Longrightarrow> lower_cp c = [lower1 c]"
  by (simp add: lower_cp_def lower1_def)

lemma py_lower_map: "0x130 \<notin> set s \<Longrightarrow> py_lower s = map lower1 s"
  by (induction s) (auto simp: py_lower_def lower_cp_lower1)

lemma lower1_word: "re_word c \<Longrightarrow> c \<noteq> 0x130 \<Longrightarrow> lowered_word (lower1 c)"
  unfolding lowered_word_def cp_defs by auto

lemma lower1_us: "lower1 c = 0x5F \<longleftrightarrow> c = 0x5F"
  unfolding lower1_def by auto

lemma word_not_space: "re_word c \<Longrightarrow> \<not> py_isspace c"
  unfolding cp_defs by auto

lemma lowered_ascii_ident: "lowered_word c \<Longrightarrow> c < 0x80 \<Longrightarrow> ident_char c"
  unfolding lowered_word_def cp_defs ident_char_def by (auto split: if_splits)

lemma lower1_ascii: "c < 0x80 \<Longrightarrow> lower1 c < 0x80"
  unfolding lower1_def by auto

lemma set_sub_nonword_from: "set (sub_nonword_from b s) \<subseteq> {c \<in> set s. re_word c} \<union> {0x5F}"
  by (induction s arbitrary: b) auto

lemma sub_nonword_from_words: "list_all re_word (sub_nonword_from b s)"
  by (induction s arbitrary: b) (auto simp: re_word_def)

lemma sub_nonword_from_id: "list_all re_word s \<Longrightarrow> sub_nonword_from b s = s"
  by (induction s arbitrary: b) auto

lemma set_sub_underscores: "set (sub_underscores s) \<subseteq> set s"
  by (induction s rule: sub_underscores.induct) auto

lemma sub_underscores_hd: "s \<noteq> [] \<Longrightarrow> sub_underscores s \<noteq> [] \<and> hd (sub_underscores s) = hd s"
  by (induction s rule: sub_underscores.induct) auto

lemma no_double_sub_underscores: "no_double_us (sub_underscores s)"
proof (induction s rule: sub_underscores.induct)
  case (3 c d cs)
  have ne: "sub_underscores (d # cs) \<noteq> []" and h: "hd (sub_underscores (d # cs)) = d"
    using sub_underscores_hd [of "d # cs"] by auto
  then obtain ys where ys: "sub_underscores (d # cs) = d # ys"
    by (cases "sub_underscores (d # cs)") auto
  show ?case
  proof (cases "c = 0x5F \<and> d = 0x5F")
    case True
    with 3 show ?thesis by simp
  next
    case False
    with 3 ys show ?thesis by auto
  qed
qed auto

lemma sub_underscores_id: "no_double_us s \<Longrightarrow> sub_underscores s = s"
  by (induction s rule: sub_underscores.induct) auto

lemma no_double_tl: "no_double_us (c # s) \<Longrightarrow> no_double_us s"
  by (cases s) auto

lemma no_double_dropWhile: "no_double_us s \<Longrightarrow> no_double_us (dropWhile p s)"
  by (induction s) (auto dest: no_double_tl)

lemma no_double_prefix: "no_double_us (a @ b) \<Longrightarrow> no_double_us a"
  by (induction a rule: no_double_us.induct) auto

lemma rstrip_prefix: "s = py_rstrip p s @ rev (takeWhile p (rev s))"
proof -
  have "py_rstrip p s @ rev (takeWhile p (rev s)) = rev (takeWhile p (rev s) @ dropWhile p (rev s))"
    unfolding py_rstrip_def by (simp only: rev_append)
  also have "\<dots> = rev (rev s)" by (simp only: takeWhile_dropWhile_id)
  finally show ?thesis by simp
qed

lemma no_double_rstrip: "no_double_us s \<Longrightarrow> no_double_us (py_rstrip p s)"
  using rstrip_prefix [of s p] no_double_prefix by metis

lemma set_rstrip: "set (py_rstrip p s) \<subseteq> set s"
  unfolding py_rstrip_def using set_dropWhileD by fastforce

lemma set_lstrip: "set (py_lstrip p s) \<subseteq> set s"
  unfolding py_lstrip_def using set_dropWhileD by fastforce

lemma last_rstrip: "py_rstrip p s \<noteq> [] \<Longrightarrow> \<not> p (last (py_rstrip p s))"
  unfolding py_rstrip_def by (simp add: last_rev hd_dropWhile)

lemma hd_rstrip: "py_rstrip p s \<noteq> [] \<Longrightarrow> hd (py_rstrip p s) = hd s"
  using rstrip_prefix [of s p] by (metis hd_append2)

lemma hd_lstrip: "py_lstrip p s \<noteq> [] \<Longrightarrow> \<not> p (hd (py_lstrip p s))"
  unfolding py_lstrip_def by (simp add: hd_dropWhile)

lemma lstrip_id: "s = [] \<or> \<not> p (hd s) \<Longrightarrow> py_lstrip p s = s"
  unfolding py_lstrip_def by (cases s) auto

lemma rstrip_id: "s = [] \<or> \<not> p (last s) \<Longrightarrow> py_rstrip p s = s"
  unfolding py_rstrip_def by (cases s rule: rev_cases) auto

lemma strip_us_alt: "strip_us s = py_rstrip (\<lambda>c. c = 0x5F) (py_lstrip (\<lambda>c. c = 0x5F) s)"
  by (simp add: strip_us_def py_strip_chars_def str_def)

lemma strip_us_no_edge: "no_edge_us (strip_us s)"
proof (cases "strip_us s = []")
  case True
  then show ?thesis by (simp add: no_edge_us_def)
next
  case False
  let ?l = "py_lstrip (\<lambda>c. c = 0x5F) s"
  from False have r: "py_rstrip (\<lambda>c. c = 0x5F) ?l \<noteq> []" by (simp add: strip_us_alt)
  then have l: "?l \<noteq> []" by (auto simp: py_rstrip_def)
  have "last (strip_us s) \<noteq> 0x5F" using last_rstrip [OF r] by (simp add: strip_us_alt)
  moreover have "hd (strip_us s) \<noteq> 0x5F"
    using hd_rstrip [OF r] hd_lstrip [OF l] by (simp add: strip_us_alt)
  ultimately show ?thesis by (simp add: no_edge_us_def)
qed

lemma strip_us_no_double: "no_double_us s \<Longrightarrow> no_double_us (strip_us s)"
  unfolding strip_us_alt py_lstrip_def by (intro no_double_rstrip no_double_dropWhile)

lemma set_strip_us: "set (strip_us s) \<subseteq> set s"
  unfolding strip_us_alt using set_rstrip set_lstrip by fastforce

lemma strip_us_id: "no_edge_us s \<Longrightarrow> strip_us s = s"
  unfolding strip_us_alt no_edge_us_def by (auto simp: lstrip_id rstrip_id)

lemma py_strip_id:
  assumes "s \<noteq> []" "\<not> py_isspace (hd s)" "\<not> py_isspace (last s)"
  shows "py_strip s = s"
  using assms by (simp add: py_strip_def lstrip_id rstrip_id)

lemma set_py_strip: "set (py_strip s) \<subseteq> set s"
  unfolding py_strip_def using set_rstrip set_lstrip by fastforce

lemma sanitize_core:
  "sanitize_column_name x = (if py_lower (core_name x) = [] then str ''col'' else py_lower (core_name x))"
  by (simp add: sanitize_column_name_def core_name_def strip_us_def Let_def)

lemma set_core_name: "set (core_name x) \<subseteq> {c \<in> set x. re_word c} \<union> {0x5F}"
proof -
  have "set (core_name x) \<subseteq> set (sub_nonword (py_strip x))"
    unfolding core_name_def using set_strip_us set_sub_underscores by fastforce
  also have "\<dots> \<subseteq> {c \<in> set (py_strip x). re_word c} \<union> {0x5F}"
    unfolding sub_nonword_def by (rule set_sub_nonword_from)
  also have "\<dots> \<subseteq> {c \<in> set x. re_word c} \<union> {0x5F}"
    using set_py_strip by fastforce
  finally show ?thesis .
qed

lemma core_name_words: "list_all re_word (core_name x)"
  using set_core_name [of x] by (auto simp: list_all_iff re_word_def)

lemma core_name_shape: "no_double_us (core_name x) \<and> no_edge_us (core_name x)"
  unfolding core_name_def by (simp add: strip_us_no_edge strip_us_no_double no_double_sub_underscores)

lemma no_double_map_lower1: "no_double_us s \<Longrightarrow> no_double_us (map lower1 s)"
  by (induction s rule: no_double_us.induct) (auto simp: lower1_us)

lemma no_edge_map_lower1: "no_edge_us s \<Longrightarrow> no_edge_us (map lower1 s)"
  by (auto simp: no_edge_us_def hd_map last_map lower1_us)

lemma clean_name_col: "clean_name (str ''col'')"
  by (simp add: clean_name_def str_def lowered_word_def no_edge_us_def cp_defs)

lemma clean_name_sanitize:
  assumes "0x130 \<notin> set x"
  shows "clean_name (sanitize_column_name x)"
proof -
  let ?t = "core_name x"
  have no130: "0x130 \<notin> set ?t" using set_core_name [of x] assms by auto
  then have low: "py_lower ?t = map lower1 ?t" by (rule py_lower_map)
  show ?thesis
  proof (cases "?t = []")
    case True
    then show ?thesis by (simp add: sanitize_core py_lower_def clean_name_col)
  next
    case False
    have "list_all lowered_word (map lower1 ?t)"
      using core_name_words [of x] no130 by (auto simp: list_all_iff intro: lower1_word)
    moreover have "no_double_us (map lower1 ?t)" "no_edge_us (map lower1 ?t)"
      using core_name_shape [of x] by (simp_all add: no_double_map_lower1 no_edge_map_lower1)
    ultimately have "clean_name (map lower1 ?t)" using False by (simp add: clean_name_def)
    with False low show ?thesis by (simp add: sanitize_core)
  qed
qed

lemma sanitize_clean_name_id:
  assumes "clean_name r"
  shows "sanitize_column_name r = r"
proof -
  from assms have ne: "r \<noteq> []" and lw: "list_all lowered_word r"
    and nd: "no_double_us r" and nedge: "no_edge_us r"
    by (simp_all add: clean_name_def)
  have w: "list_all re_word r" using lw by (auto simp: list_all_iff lowered_word_def)
  have "hd r \<in> set r" "last r \<in> set r" using ne by simp_all
  then have "\<not> py_isspace (hd r)" "\<not> py_isspace (last r)"
    using w by (auto simp: list_all_iff dest: word_not_space)
  then have 1: "py_strip r = r" using ne by (simp add: py_strip_id)
  have 2: "sub_nonword r = r" using w by (simp add: sub_nonword_def sub_nonword_from_id)
  have 3: "sub_underscores r = r" using nd by (rule sub_underscores_id)
  have 4: "strip_us r = r" using nedge by (rule strip_us_id)
  have 5: "py_lower r = r" using lw
    by (induction r) (auto simp: py_lower_def lowered_word_def)
  show ?thesis using 1 2 3 4 5 ne by (simp add: sanitize_core core_name_def)
qed

lemma sanitize_ascii:
  assumes "list_all (\<lambda>c. c < 0x80) x"
  shows "list_all (\<lambda>c. c < 0x80) (sanitize_column_name x)"
proof -
  let ?t = "core_name x"
  have a: "list_all (\<lambda>c. c < 0x80) ?t"
    using set_core_name [of x] assms by (auto simp: list_all_iff)
  then have "0x130 \<notin> set ?t" by (auto simp: list_all_iff)
  then have "py_lower ?t = map lower1 ?t" by (rule py_lower_map)
  moreover have "list_all (\<lambda>c. c < 0x80) (map lower1 ?t)"
    using a by (auto simp: list_all_iff lower1_ascii)
  ultimately show ?thesis by (simp add: sanitize_core str_def)
qed

subsection \<open>Claims about the sanitizer\<close>

text \<open>
  C4. The claim reads: for every input string \<open>x\<close>, \<open>sanitize(x)\<close> is non-empty and matches
  \<^verbatim>\<open>^[a-z0-9_]+$\<close>. The pattern \<^verbatim>\<open>[^\w]+\<close> of the source is a \<open>str\<close> pattern, so \<^verbatim>\<open>\w\<close> is
  every Unicode alphanumeric character and not only \<^verbatim>\<open>[A-Za-z0-9_]\<close>: the one-character name
  U+00C9 (capital E with acute) is kept by the substitution and lowered to U+00E9, which the
  pattern of the claim does not match.
\<close>

theorem sanitize_non_ascii_counterexample:
  "sanitize_column_name [0xC9] = [0xE9] \<and> \<not> matches_ident (sanitize_column_name [0xC9])"
  by code_simp

text \<open>
  C4, amended. For every input string of ASCII characters, the sanitized name is non-empty,
  matches \<^verbatim>\<open>^[a-z0-9_]+$\<close>, has no two adjacent underscores and neither starts nor ends with an
  underscore.
\<close>

theorem sanitize_ascii_matches_ident:
  assumes "list_all (\<lambda>c. c < 0x80) x"
  shows "matches_ident (sanitize_column_name x)
       \<and> no_double_us (sanitize_column_name x)
       \<and> hd (sanitize_column_name x) \<noteq> 0x5F \<and> last (sanitize_column_name x) \<noteq> 0x5F"
proof -
  let ?r = "sanitize_column_name x"
  have "0x130 \<notin> set x" using assms by (auto simp: list_all_iff)
  then have c: "clean_name ?r" by (rule clean_name_sanitize)
  have a: "list_all (\<lambda>c. c < 0x80) ?r" using assms by (rule sanitize_ascii)
  have "list_all ident_char ?r"
    using c a by (auto simp: clean_name_def list_all_iff intro: lowered_ascii_ident)
  then show ?thesis using c by (auto simp: clean_name_def matches_ident_def no_edge_us_def)
qed

theorem sanitize_ascii_matches_ident_witness:
  "list_all (\<lambda>c. c < 0x80) (str ''  First  Name!! '')
   \<and> sanitize_column_name (str ''  First  Name!! '') = str ''first_name''
   \<and> matches_ident (sanitize_column_name (str ''  First  Name!! ''))
   \<and> no_double_us (sanitize_column_name (str ''  First  Name!! ''))
   \<and> hd (sanitize_column_name (str ''  First  Name!! '')) \<noteq> 0x5F
   \<and> last (sanitize_column_name (str ''  First  Name!! '')) \<noteq> 0x5F"
proof -
  have h: "list_all (\<lambda>c. c < 0x80) (str ''  First  Name!! '')" by code_simp
  have v: "sanitize_column_name (str ''  First  Name!! '') = str ''first_name''" by code_simp
  show ?thesis using h v sanitize_ascii_matches_ident [OF h] by simp
qed

text \<open>
  C5. The claim reads: \<open>sanitize(sanitize(x)) = sanitize(x)\<close> for every string \<open>x\<close>. The source
  lowers the name after it has replaced the non-word characters, and \<^verbatim>\<open>str.lower\<close> maps
  U+0130 (capital I with dot above) to the two characters U+0069 U+0307. The combining dot
  U+0307 is not a word character, so a second pass replaces it by an underscore and strips it.
\<close>

theorem sanitize_idempotent_counterexample:
  "sanitize_column_name [0x130] = [0x69, 0x307]
   \<and> sanitize_column_name (sanitize_column_name [0x130]) = [0x69]
   \<and> sanitize_column_name (sanitize_column_name [0x130]) \<noteq> sanitize_column_name [0x130]"
  by code_simp

text \<open>
  C5, amended. For every input string of Latin-1 characters (code points below U+0100),
  sanitizing twice gives the same name as sanitizing once.
\<close>

theorem sanitize_idempotent_latin1:
  assumes "list_all (\<lambda>c. c < 0x100) x"
  shows "sanitize_column_name (sanitize_column_name x) = sanitize_column_name x"
proof -
  have "0x130 \<notin> set x" using assms by (auto simp: list_all_iff)
  then have "clean_name (sanitize_column_name x)" by (rule clean_name_sanitize)
  then show ?thesis by (rule sanitize_clean_name_id)
qed

theorem sanitize_idempotent_latin1_witness:
  "list_all (\<lambda>c. c < 0x100) (str ''Join-Date'')
   \<and> sanitize_column_name (str ''Join-Date'') = str ''join_date''
   \<and> sanitize_column_name (sanitize_column_name (str ''Join-Date'')) = sanitize_column_name (str ''Join-Date'')"
proof -
  have h: "list_all (\<lambda>c. c < 0x100) (str ''Join-Date'')" by code_simp
  have v: "sanitize_column_name (str ''Join-Date'') = str ''join_date''" by code_simp
  show ?thesis using h v sanitize_idempotent_latin1 [OF h] by simp
qed

section \<open>Properties of the classifier\<close>

lemma tally_step_counts:
  "tally_step dp (i, f, d) v =
     (i + count_of int_like [v], f + count_of float_like [v], d + count_of (date_like dp) [v])"
  by (simp add: count_of_def int_like_def float_like_def date_like_def Let_def)

lemma count_of_Cons: "count_of p (x # xs) = count_of p [x] + count_of p xs"
  by (simp add: count_of_def)

lemma tally_counts:
  "foldl (tally_step dp) (i, f, d) vs =
     (i + count_of int_like vs, f + count_of float_like vs, d + count_of (date_like dp) vs)"
proof (induction vs arbitrary: i f d)
  case Nil
  show ?case by (simp add: count_of_def)
next
  case (Cons v vs)
  have "foldl (tally_step dp) (i, f, d) (v # vs) =
      foldl (tally_step dp) (i + count_of int_like [v], f + count_of float_like [v], d + count_of (date_like dp) [v]) vs"
    by (simp only: foldl_Cons tally_step_counts)
  also have "\<dots> = (i + count_of int_like [v] + count_of int_like vs,
      f + count_of float_like [v] + count_of float_like vs,
      d + count_of (date_like dp) [v] + count_of (date_like dp) vs)"
    by (rule Cons.IH)
  finally show ?case
    by (simp add: count_of_Cons [of _ v vs] add.assoc)
qed

lemma ratio_ge_numeric: "0 < n \<Longrightarrow> (real k / real n \<ge> NUMERIC_THRESHOLD) = (9 * n \<le> 10 * k)"
proof -
  assume n: "0 < n"
  have "(real k / real n \<ge> 9 / 10) = (9 * real n \<le> 10 * real k)"
    using n by (simp add: field_simps)
  also have "\<dots> = (real (9 * n) \<le> real (10 * k))" by simp
  also have "\<dots> = (9 * n \<le> 10 * k)" by (simp only: of_nat_le_iff)
  finally show ?thesis by (simp add: NUMERIC_THRESHOLD_def)
qed

lemma ratio_ge_date: "0 < n \<Longrightarrow> (real k / real n \<ge> DATE_THRESHOLD) = (3 * n \<le> 4 * k)"
proof -
  assume n: "0 < n"
  have "(real k / real n \<ge> 3 / 4) = (3 * real n \<le> 4 * real k)"
    using n by (simp add: field_simps)
  also have "\<dots> = (real (3 * n) \<le> real (4 * k))" by simp
  also have "\<dots> = (3 * n \<le> 4 * k)" by (simp only: of_nat_le_iff)
  finally show ?thesis by (simp add: DATE_THRESHOLD_def)
qed

lemma decide_nat:
  "0 < n \<Longrightarrow> decide n (i, f, d) =
     (if 9 * n \<le> 10 * i then TInt else if 9 * n \<le> 10 * f then TFloat
      else if 3 * n \<le> 4 * d then TDate else TString)"
  by (simp add: decide_def ratio_ge_numeric ratio_ge_date)

lemma infer_column_counts:
  "infer_column dp ser =
     (if non_null ser = [] then TString
      else decide (length (non_null ser))
             (count_of int_like (take SAMPLE_ROWS (non_null ser)),
              count_of float_like (take SAMPLE_ROWS (non_null ser)),
              count_of (date_like dp) (take SAMPLE_ROWS (non_null ser))))"
  by (simp add: infer_column_def Let_def tally_counts)

lemma non_null_append: "non_null (a @ b) = non_null a @ non_null b"
  by (simp add: non_null_def map_filter_def)

lemma non_null_replicate:
  "py_strip s \<noteq> [] \<Longrightarrow> non_null (replicate n (Some s)) = replicate n s"
  by (simp add: non_null_def map_filter_def)

lemma count_of_replicate: "count_of p (replicate n x) = (if p x then n else 0)"
  by (simp add: count_of_def)

lemma count_of_append: "count_of p (a @ b) = count_of p a + count_of p b"
  by (simp add: count_of_def)

lemma count_of_le: "count_of p xs \<le> length xs"
  by (simp add: count_of_def)

lemma count_of_all: "list_all p xs \<Longrightarrow> count_of p xs = length xs"
  by (induction xs) (auto simp: count_of_def)

lemma count_of_none: "list_all (\<lambda>x. \<not> p x) xs \<Longrightarrow> count_of p xs = 0"
  by (induction xs) (auto simp: count_of_def)

text \<open>
  C1. For every column sample the classification follows the ordered threshold decision, first
  match winning: no non-empty value gives String; otherwise an integer ratio of at least 0.90
  gives Integer, else a float ratio of at least 0.90 gives Float, else a date ratio of at least
  0.75 gives Date, else String. The ratios are the ones the source computes: the tallies of
  the loop, which are the numbers of examined values that pass each check, over \<open>total\<close>.
  Python divides two integers exactly and rounds once; for fewer than \<open>2^50\<close> rows the
  comparison with the literals \<open>0.9\<close> and \<open>0.75\<close> agrees with the comparison of the exact
  quotients, which is what the model computes.
\<close>

theorem infer_column_decision:
  "infer_column dp ser =
     (let sample = take SAMPLE_ROWS (non_null ser);
          total_n = length (non_null ser);
          int_ratio = real (count_of int_like sample) / real total_n;
          float_ratio = real (count_of float_like sample) / real total_n;
          date_ratio = real (count_of (date_like dp) sample) / real total_n
      in if non_null ser = [] then TString
         else if int_ratio \<ge> 9 / 10 then TInt
         else if float_ratio \<ge> 9 / 10 then TFloat
         else if date_ratio \<ge> 3 / 4 then TDate
         else TString)"
proof (cases "non_null ser = []")
  case True
  then show ?thesis by (simp add: infer_column_def Let_def)
next
  case False
  let ?sample = "take SAMPLE_ROWS (non_null ser)"
  have loop: "foldl (tally_step dp) (0, 0, 0) ?sample =
      (count_of int_like ?sample, count_of float_like ?sample, count_of (date_like dp) ?sample)"
    using tally_counts [of dp 0 0 0 ?sample] by simp
  have pos: "0 < length (non_null ser)" using False by simp
  show ?thesis
    using False pos
    by (simp add: infer_column_def Let_def loop decide_def NUMERIC_THRESHOLD_def DATE_THRESHOLD_def)
qed

lemma sample_values:
  "py_strip (str ''42'') \<noteq> []" "py_strip (str ''abc'') \<noteq> []"
  "int_like (str ''42'')" "\<not> int_like (str ''abc'')"
  "float_like (str ''42'')" "\<not> float_like (str ''abc'')"
  "\<not> date_like year_date (str ''42'')" "\<not> date_like year_date (str ''abc'')"
  unfolding int_like_def float_like_def date_like_def by code_simp+

text \<open>
  The boundary of C1: nine integer strings and one word classify as Integer; eighty-nine
  integer strings and eleven words do not (no check reaches its threshold, so String).
\<close>

theorem infer_column_decision_witness:
  "infer_column year_date nine_of_ten = TInt
   \<and> infer_column year_date eighty_nine_of_hundred = TString"
proof -
  have n1: "non_null nine_of_ten = replicate 9 (str ''42'') @ [str ''abc'']"
    unfolding nine_of_ten_def non_null_append
    using non_null_replicate [of "str ''42''" 9] non_null_replicate [of "str ''abc''" 1] sample_values
    by simp
  have n2: "non_null eighty_nine_of_hundred = replicate 89 (str ''42'') @ replicate 11 (str ''abc'')"
    unfolding eighty_nine_of_hundred_def non_null_append
    using non_null_replicate [of "str ''42''" 89] non_null_replicate [of "str ''abc''" 11] sample_values
    by simp
  have "infer_column year_date nine_of_ten = TInt"
    using infer_column_decision [of year_date nine_of_ten]
    by (simp add: n1 SAMPLE_ROWS_def Let_def count_of_append count_of_replicate sample_values count_of_def)
  moreover have "infer_column year_date eighty_nine_of_hundred = TString"
    using infer_column_decision [of year_date eighty_nine_of_hundred]
    by (simp add: n2 SAMPLE_ROWS_def Let_def count_of_append count_of_replicate sample_values)
  ultimately show ?thesis by simp
qed

lemma all_int_never_date:
  assumes "list_all int_like (non_null ser)"
  shows "infer_column dp ser \<noteq> TDate"
proof (cases "non_null ser = []")
  case True
  then show ?thesis by (simp add: infer_column_counts)
next
  case False
  let ?s = "take SAMPLE_ROWS (non_null ser)"
  have "list_all (\<lambda>v. \<not> date_like dp v) ?s"
    using assms by (auto simp: list_all_iff date_like_def int_like_def dest: in_set_takeD)
  then have d0: "count_of (date_like dp) ?s = 0" by (rule count_of_none)
  have n: "0 < length (non_null ser)" using False by simp
  show ?thesis using False d0 n by (simp add: infer_column_counts decide_nat)
qed

text \<open>
  C10. A value that passes the integer check adds one to the integer and the float tally and
  leaves the date tally alone, whatever the date parser would say of it (the \<^verbatim>\<open>continue\<close> of
  the loop); so a column whose non-empty values all pass the integer check is never
  classified Date.
\<close>

theorem int_values_skip_date_parse:
  "(int_check (py_strip v) \<longrightarrow> tally_step dp (i, f, d) v = (i + 1, f + 1, d))
   \<and> (list_all (\<lambda>v. int_check (py_strip v)) (non_null ser) \<longrightarrow> infer_column dp ser \<noteq> TDate)"
proof (intro conjI impI)
  assume "int_check (py_strip v)"
  then show "tally_step dp (i, f, d) v = (i + 1, f + 1, d)" by simp
next
  assume "list_all (\<lambda>v. int_check (py_strip v)) (non_null ser)"
  then have "list_all int_like (non_null ser)" by (simp add: int_like_def [abs_def])
  then show "infer_column dp ser \<noteq> TDate" by (rule all_int_never_date)
qed

text \<open>
  The strings \<open>2021\<close>, \<open>2022\<close> and \<open>1999\<close> pass the integer check and are dates for
  \<open>year_date\<close>; the column is not Date.
\<close>

theorem int_values_skip_date_parse_witness:
  "int_check (py_strip (str ''2021'')) \<and> year_date (py_strip (str ''2021''))
   \<and> tally_step year_date (0, 0, 0) (str ''2021'') = (1, 1, 0)
   \<and> list_all (\<lambda>v. int_check (py_strip v)) (non_null years_column)
   \<and> list_all (\<lambda>v. year_date (py_strip v)) (non_null years_column)
   \<and> infer_column year_date years_column \<noteq> TDate"
proof -
  have a: "int_check (py_strip (str ''2021''))" by code_simp
  have b: "year_date (py_strip (str ''2021''))" by code_simp
  have c: "list_all (\<lambda>v. int_check (py_strip v)) (non_null years_column)" by code_simp
  have d: "list_all (\<lambda>v. year_date (py_strip v)) (non_null years_column)" by code_simp
  show ?thesis
    using a b c d int_values_skip_date_parse [of "str ''2021''" year_date 0 0 0 years_column]
    by simp
qed

lemma strip_one: "py_strip (str ''1'') \<noteq> []" "int_like (str ''1'')" "float_like (str ''1'')"
  unfolding int_like_def float_like_def by code_simp+

text \<open>
  C2. The claim reads: each ratio is the number of successes over the number of non-empty values
  examined under the \<open>SAMPLE_ROWS\<close> cap. The source sets \<open>total = len(non_null)\<close> before it
  slices \<open>non_null[:SAMPLE_ROWS]\<close>, so the denominator is the uncapped count. A column of 1112
  values \<open>1\<close> has 1000 examined values, all of them integers, and is classified String,
  where the same column cut to 1000 values is classified Integer.
\<close>

theorem denominator_not_capped:
  "infer_column dp (replicate 1000 (Some (str ''1''))) = TInt
   \<and> count_of int_like (take SAMPLE_ROWS (non_null (replicate 1112 (Some (str ''1''))))) = 1000
   \<and> length (take SAMPLE_ROWS (non_null (replicate 1112 (Some (str ''1''))))) = 1000
   \<and> infer_column dp (replicate 1112 (Some (str ''1''))) = TString"
proof -
  have n: "non_null (replicate k (Some (str ''1''))) = replicate k (str ''1'')" for k
    using strip_one(1) by (rule non_null_replicate)
  have d: "date_like dp (str ''1'') = False" using strip_one(2) by (simp add: date_like_def int_like_def)
  have 1: "infer_column dp (replicate 1000 (Some (str ''1''))) = TInt"
    by (simp add: infer_column_counts n SAMPLE_ROWS_def count_of_replicate strip_one decide_nat)
  have 2: "infer_column dp (replicate 1112 (Some (str ''1''))) = TString"
    by (simp add: infer_column_counts n SAMPLE_ROWS_def count_of_replicate strip_one d decide_nat)
  have 3: "count_of int_like (take SAMPLE_ROWS (non_null (replicate 1112 (Some (str ''1''))))) = 1000"
    by (simp add: n SAMPLE_ROWS_def count_of_replicate strip_one)
  have 4: "length (take SAMPLE_ROWS (non_null (replicate 1112 (Some (str ''1''))))) = 1000"
    by (simp add: n SAMPLE_ROWS_def)
  show ?thesis using 1 2 3 4 by simp
qed

lemma int_digits_decimal:
  "int_digits b acc xs \<noteq> None \<Longrightarrow> 0x5F \<notin> set xs \<Longrightarrow> list_all py_isdecimal xs \<and> (xs \<noteq> [] \<or> b)"
  by (induction xs arbitrary: b acc) (auto split: if_splits)

lemma skip_digits_decimal: "list_all py_isdecimal xs \<Longrightarrow> skip_digits xs = []"
  by (induction xs rule: skip_digits.induct) auto

lemma floatnumber_decimal:
  assumes "xs \<noteq> []" "list_all py_isdecimal xs"
  shows "floatnumber xs"
proof -
  from assms obtain c cs where xs: "xs = c # cs" by (cases xs) auto
  with assms have "py_isdecimal c" "list_all py_isdecimal cs" by auto
  then have "digitpart xs = Some []" by (simp add: digitpart_def xs skip_digits_decimal)
  then show ?thesis by (simp add: floatnumber_def)
qed

lemma decimal_not_space: "py_isdecimal c \<Longrightarrow> \<not> py_isspace c"
  by (auto simp: py_isdecimal_def py_isspace_def)

lemma sign_not_space: "is_sign c \<Longrightarrow> \<not> py_isspace c"
  by (auto simp: is_sign_def py_isspace_def)

lemma py_float_signed_decimal:
  assumes "xs \<noteq> []" "list_all py_isdecimal xs" "s = xs \<or> (\<exists>c. is_sign c \<and> s = c # xs)"
  shows "py_float (remove_commas s) \<noteq> None"
proof -
  have "0x2C \<notin> set xs" using assms(2) by (fastforce simp: list_all_iff py_isdecimal_def)
  then have nc: "0x2C \<notin> set s" using assms(3) by (auto simp: is_sign_def)
  then have rc: "remove_commas s = s" by (auto simp: remove_commas_def filter_id_conv)
  have ne: "s \<noteq> []" using assms by auto
  have sp: "\<forall>c \<in> set s. \<not> py_isspace c"
    using assms decimal_not_space sign_not_space by (fastforce simp: list_all_iff)
  have "hd s \<in> set s" "last s \<in> set s" using ne by simp_all
  then have st: "py_strip s = s" using sp ne by (simp add: py_strip_id)
  have nsign: "\<not> is_sign (hd xs)"
    using assms(1,2) by (cases xs) (auto simp: py_isdecimal_def is_sign_def)
  have ds: "drop_sign s = xs"
    using assms nsign by (cases xs) (auto simp: drop_sign_def)
  have "floatnumber xs" using assms by (simp add: floatnumber_decimal)
  then show ?thesis by (simp add: py_float_def rc st ds Let_def)
qed

lemma int_check_float_check:
  assumes "int_check s"
  shows "float_check s"
proof -
  from assms have dig: "str_isdigit (dropWhile is_sign s)" and pi: "py_int s \<noteq> None"
    by (simp_all add: int_check_def py_lstrip_def)
  have chars: "\<forall>c \<in> set s. is_sign c \<or> py_isdigit c"
  proof
    fix c assume "c \<in> set s"
    then have "c \<in> set (takeWhile is_sign s) \<or> c \<in> set (dropWhile is_sign s)"
      by (metis Un_iff set_append takeWhile_dropWhile_id)
    then show "is_sign c \<or> py_isdigit c"
      using dig by (auto simp: str_isdigit_def list_all_iff dest: set_takeWhileD)
  qed
  have ne: "s \<noteq> []" using dig by (auto simp: str_isdigit_def)
  have sp: "\<forall>c \<in> set s. \<not> py_isspace c"
    using chars by (auto simp: is_sign_def py_isdigit_def py_isdecimal_def py_isspace_def)
  have "hd s \<in> set s" "last s \<in> set s" using ne by simp_all
  then have st: "py_strip s = s" using sp ne by (simp add: py_strip_id)
  have nus: "0x5F \<notin> set s"
    using chars by (auto simp: is_sign_def py_isdigit_def py_isdecimal_def)
  obtain c cs where s: "s = c # cs" using ne by (cases s) auto
  have nus': "0x5F \<notin> set cs" using nus s by simp
  have st': "py_strip (c # cs) = c # cs" using st s by simp
  have pi': "py_int (c # cs) \<noteq> None" using pi s by simp
  show ?thesis
  proof (cases "is_sign c")
    case True
    then have "int_digits False 0 cs \<noteq> None"
      using pi' by (auto simp: py_int_def st' is_sign_def split: if_splits)
    then have "list_all py_isdecimal cs \<and> cs \<noteq> []"
      using int_digits_decimal [OF _ nus'] by auto
    then show ?thesis
      unfolding float_check_def using py_float_signed_decimal [of cs s] True s by auto
  next
    case False
    then have "int_digits False 0 (c # cs) \<noteq> None"
      using pi' by (auto simp: py_int_def st' is_sign_def split: if_splits)
    then have "int_digits False 0 s \<noteq> None" using s by simp
    then have "list_all py_isdecimal s"
      using int_digits_decimal [OF _ nus] by auto
    then show ?thesis
      unfolding float_check_def using py_float_signed_decimal [of s s] ne by auto
  qed
qed

text \<open>
  C3, amended. For every examined value the float tally grows by one iff \<^verbatim>\<open>float\<close> accepts the
  stripped string with its commas removed, that is iff the string is a decimal numeral
  (optional sign, digits with an optional fraction and exponent) or one of the non-finite
  spellings \<open>inf\<close>, \<open>infinity\<close>, \<open>nan\<close> in any letter case with an optional sign; this covers
  the values that pass the integer check, for which the source adds one without calling
  \<^verbatim>\<open>float\<close>. In particular \<open>inf\<close> and \<open>nan\<close> are float successes.
\<close>

theorem float_tally_counts_non_finite:
  "fst (snd (tally_step dp (i, f, d) v)) =
     (if py_float (remove_commas (py_strip v)) \<in> {Some DecimalText, Some InfinityText, Some NanText}
      then f + 1 else f)
   \<and> py_float (remove_commas (str ''inf'')) = Some InfinityText
   \<and> py_float (remove_commas (str ''nan'')) = Some NanText"
proof -
  have mem: "(py_float (remove_commas (py_strip v)) \<in> {Some DecimalText, Some InfinityText, Some NanText})
      = float_check (py_strip v)"
  proof (cases "py_float (remove_commas (py_strip v))")
    case None
    then show ?thesis by (simp add: float_check_def)
  next
    case (Some t)
    then show ?thesis by (cases t) (simp_all add: float_check_def)
  qed
  have step: "fst (snd (tally_step dp (i, f, d) v)) = (if float_check (py_strip v) then f + 1 else f)"
    using int_check_float_check [of "py_strip v"] by (auto simp: Let_def)
  have inf: "py_float (remove_commas (str ''inf'')) = Some InfinityText" by code_simp
  have nan: "py_float (remove_commas (str ''nan'')) = Some NanText" by code_simp
  show ?thesis using mem step inf nan by simp
qed

text \<open>
  Three values: a number with a thousands separator, a signed infinity and a word.
\<close>

theorem float_tally_counts_non_finite_witness:
  "fst (snd (tally_step year_date (0, 0, 0) (str ''1,234.5''))) = 1
   \<and> fst (snd (tally_step year_date (0, 0, 0) (str ''-Infinity''))) = 1
   \<and> fst (snd (tally_step year_date (0, 0, 0) (str ''12a''))) = 0"
proof -
  have a: "py_float (remove_commas (py_strip (str ''1,234.5''))) = Some DecimalText" by code_simp
  have b: "py_float (remove_commas (py_strip (str ''-Infinity''))) = Some InfinityText" by code_simp
  have c: "py_float (remove_commas (py_strip (str ''12a''))) = None" by code_simp
  show ?thesis
    using float_tally_counts_non_finite [of year_date 0 0 0 "str ''1,234.5''"]
      float_tally_counts_non_finite [of year_date 0 0 0 "str ''-Infinity''"]
      float_tally_counts_non_finite [of year_date 0 0 0 "str ''12a''"]
    by (simp add: a b c)
qed

text \<open>
  C3. The claim reads: the float parse succeeds iff the string without commas is a finite decimal
  number, and \<open>inf\<close> or \<open>nan\<close> does not count. \<^verbatim>\<open>float\<close> accepts both spellings without an
  exception, so each adds one to the float tally, and a column of the two is classified Float.
\<close>

theorem float_non_finite_counterexample:
  "float_check (py_strip (str ''inf'')) \<and> float_check (py_strip (str ''nan''))
   \<and> tally_step year_date (0, 0, 0) (str ''inf'') = (0, 1, 0)
   \<and> tally_step year_date (0, 0, 0) (str ''nan'') = (0, 1, 0)
   \<and> infer_column year_date [Some (str ''inf''), Some (str ''nan'')] = TFloat"
proof -
  have a: "float_check (py_strip (str ''inf''))" "float_check (py_strip (str ''nan''))" by code_simp+
  have b: "\<not> int_check (py_strip (str ''inf''))" "\<not> int_check (py_strip (str ''nan''))" by code_simp+
  have c: "\<not> year_date (py_strip (str ''inf''))" "\<not> year_date (py_strip (str ''nan''))" by code_simp+
  have n: "non_null [Some (str ''inf''), Some (str ''nan'')] = [str ''inf'', str ''nan'']" by code_simp
  have t: "tally_step year_date (0, 0, 0) (str ''inf'') = (0, 1, 0)"
          "tally_step year_date (0, 0, 0) (str ''nan'') = (0, 1, 0)"
    using a b c by (simp_all add: Let_def)
  have "infer_column year_date [Some (str ''inf''), Some (str ''nan'')] = TFloat"
    using a b c
    by (simp add: infer_column_counts n SAMPLE_ROWS_def count_of_def int_like_def float_like_def
        date_like_def decide_nat)
  then show ?thesis using a t by simp
qed

section \<open>Properties of the caster and of the run\<close>






lemma cast_expr_date_no_format:
  "infer_datetime_format env col = None \<Longrightarrow> cast_expr env TDate (Utf8 col) = Inl CollectError"
  by (simp add: cast_expr_def)

lemma cast_expr_non_utf8: "cast_expr env t (NonUtf8 vs) = Inl CollectError"
  by (simp add: cast_expr_def)




lemma keep_first_set: "set (keep_first seen rows) = set rows - set seen"
  by (induction rows arbitrary: seen) auto

lemma keep_first_distinct: "distinct (keep_first seen rows)"
  by (induction rows arbitrary: seen) (auto simp: keep_first_set)

lemma first_seen_unique: "unique_rel rows (first_seen rows)"
  by (simp add: unique_rel_def first_seen_def keep_first_set keep_first_distinct)






lemma people_scan: "scan_csv plain_env people_csv = Some people_lf"
  by code_simp

lemma people_distinct: "distinct (map (sanitize_column_name \<circ> fst) people_lf)"
  by code_simp

lemma people_cast: "cast_frame plain_env 1000 people_lf = Inr people_df"
  by code_simp

lemma people_frame_rows: "frame_rows people_df = people_rows"
  by code_simp

lemma people_names: "map fst people_df = [str ''name'', str ''city'']"
  by code_simp

lemma people_run:
  assumes "unique_rel people_rows df_out"
  shows "clean_csv plain_env flt 1000 people_files (str ''in.csv'') (str ''out.csv'')
           (write_csv flt people_files (str ''out.csv'')
              (plain_write_csv_text [str ''name'', str ''city''] df_out))"
proof -
  have f: "people_files (str ''in.csv'') = Some people_csv" by (simp add: people_files_def str_def)
  have u: "unique_rel (frame_rows people_df) df_out" using assms by (simp add: people_frame_rows)
  have w: "write_csv_text plain_env = plain_write_csv_text" by (simp add: plain_env_def)
  have "clean_csv plain_env flt 1000 people_files (str ''in.csv'') (str ''out.csv'')
           (write_csv flt people_files (str ''out.csv'') (write_csv_text plain_env (map fst people_df) df_out))"
    by (rule clean_csv.written [where content = people_csv and lf = people_lf])
       (rule f people_scan people_distinct people_cast u)+
  then show ?thesis by (simp add: w people_names)
qed



lemma alice_first_text:
  "plain_write_csv_text [str ''name'', str ''city''] (first_seen people_rows) = alice_first_csv"
  by code_simp

text \<open>Every run has an outcome: the cases of the relation cover every input.\<close>

lemma clean_csv_total: "\<exists>outcome. clean_csv env flt n files inp outp outcome"
proof (cases "files inp")
  case None
  then show ?thesis using clean_csv.no_input by blast
next
  case (Some content)
  show ?thesis
  proof (cases "scan_csv env content")
    case None
    with Some show ?thesis using clean_csv.scan_failed by blast
  next
    case lf: (Some lf)
    show ?thesis
    proof (cases "distinct (map (sanitize_column_name \<circ> fst) lf)")
      case False
      with Some lf show ?thesis using clean_csv.duplicate_names by blast
    next
      case True
      show ?thesis
      proof (cases "cast_frame env n lf")
        case (Inl e)
        with Some lf True show ?thesis using clean_csv.collect_failed by blast
      next
        case (Inr df)
        have "unique_rel (frame_rows df) (first_seen (frame_rows df))" by (rule first_seen_unique)
        with Some lf True Inr show ?thesis using clean_csv.written by blast
      qed
    qed
  qed
qed

lemma clean_csv_other_paths:
  assumes "clean_csv env flt n files inp outp (files', res)" "p \<noteq> outp"
  shows "files' p = files p"
  using assms by (cases rule: clean_csv.cases) (auto simp: write_csv_def split: fault.splits)

lemma clean_csv_unchanged:
  assumes "clean_csv env flt n files inp outp (files', res)"
    and "(\<exists>e. res = Inl e \<and> e \<noteq> WriteFailed) \<or> flt = FailOpen"
  shows "files' = files"
  using assms
  by (cases rule: clean_csv.cases) (auto simp: write_csv_def split: fault.splits if_splits)

lemma clean_csv_no_fault:
  assumes "clean_csv env NoFault n files inp outp (files', Inr ())"
  shows "\<exists>content lf df df_out. files inp = Some content \<and> scan_csv env content = Some lf
           \<and> cast_frame env n lf = Inr df \<and> unique_rel (frame_rows df) df_out
           \<and> files' outp = Some (write_csv_text env (map fst df) df_out)"
  using assms
proof (cases rule: clean_csv.cases)
  case (written content lf df df_out)
  then have "files' = files(outp \<mapsto> write_csv_text env (map fst df) df_out)"
    by (simp add: write_csv_def)
  with written show ?thesis by fastforce
qed

lemma clean_csv_prefix:
  assumes "clean_csv env flt n files inp outp (files', res)"
  shows "files' = files
       \<or> (\<exists>content lf df df_out k. files inp = Some content \<and> scan_csv env content = Some lf
             \<and> cast_frame env n lf = Inr df \<and> unique_rel (frame_rows df) df_out
             \<and> files' outp = Some (take k (write_csv_text env (map fst df) df_out)))"
  using assms
proof (cases rule: clean_csv.cases)
  case (written content lf df df_out)
  let ?text = "write_csv_text env (map fst df) df_out"
  have "files' = files \<or> (\<exists>k. files' outp = Some (take k ?text))"
  proof (cases flt)
    case NoFault
    with written have "files' outp = Some (take (length ?text) ?text)" by (simp add: write_csv_def)
    then show ?thesis by blast
  next
    case FailOpen
    with written show ?thesis by (simp add: write_csv_def)
  next
    case (FailAfter k raised)
    with written have "files' outp = Some (take k ?text)" by (simp add: write_csv_def)
    then show ?thesis by blast
  qed
  with written show ?thesis by blast
qed auto

text \<open>
  C9. The claim reads: when a step fails, the run aborts and the destination is either unchanged
  or holds the complete file. The source writes with \<^verbatim>\<open>df_out.write_csv(output_path)\<close> straight
  to the destination; there is no staging file and no rename. A write that fails at its first
  character raises and leaves an empty file in place of the old content; a write that stops
  after twelve characters without the writer raising leaves the header and the start of the
  first row, and the run returns as if it had succeeded.
\<close>

theorem partial_output_counterexample:
  "clean_csv plain_env (FailAfter 0 True) 1000 people_files (str ''in.csv'') (str ''out.csv'')
     (emptied_files, Inl WriteFailed)
   \<and> people_files (str ''out.csv'') = Some (str ''stale'')
   \<and> emptied_files (str ''out.csv'') = Some []
   \<and> [] \<noteq> str ''stale'' \<and> [] \<noteq> alice_first_csv \<and> [] \<noteq> bob_first_csv
   \<and> clean_csv plain_env (FailAfter 12 False) 1000 people_files (str ''in.csv'') (str ''out.csv'')
       (people_files(str ''out.csv'' \<mapsto> partial_csv), Inr ())
   \<and> partial_csv \<noteq> str ''stale'' \<and> partial_csv \<noteq> alice_first_csv \<and> partial_csv \<noteq> bob_first_csv"
proof -
  have t: "take 12 alice_first_csv = partial_csv" by code_simp
  have 1: "clean_csv plain_env (FailAfter 0 True) 1000 people_files (str ''in.csv'') (str ''out.csv'')
     (emptied_files, Inl WriteFailed)"
    using people_run [OF first_seen_unique, of "FailAfter 0 True"]
    by (simp add: write_csv_def emptied_files_def)
  have 2: "clean_csv plain_env (FailAfter 12 False) 1000 people_files (str ''in.csv'') (str ''out.csv'')
       (people_files(str ''out.csv'' \<mapsto> partial_csv), Inr ())"
    using people_run [OF first_seen_unique, of "FailAfter 12 False"]
    by (simp add: write_csv_def alice_first_text t)
  have 3: "people_files (str ''out.csv'') = Some (str ''stale'')" by (simp add: people_files_def)
  have 4: "emptied_files (str ''out.csv'') = Some []" by (simp add: emptied_files_def)
  have 5: "[] \<noteq> str ''stale''" "[] \<noteq> alice_first_csv" "[] \<noteq> bob_first_csv" by code_simp+
  have 6: "partial_csv \<noteq> str ''stale''" "partial_csv \<noteq> alice_first_csv" "partial_csv \<noteq> bob_first_csv"
    by code_simp+
  show ?thesis using 1 2 3 4 5 6 by simp
qed

text \<open>
  C9, amended. A run changes no path other than the destination. If the run ends with an error
  raised before the destination is opened (the input is missing or unreadable, two labels
  sanitize to one name, the frame cannot be collected), or the destination cannot be opened,
  nothing is changed. If the write meets no fault and the run succeeds, the destination holds
  the complete cleaned file. In every run the destination is either unchanged or holds a
  prefix of the complete cleaned file, since the source writes straight to it.
\<close>

theorem clean_csv_destination:
  assumes "clean_csv env flt n files inp outp (files', res)"
  shows "(\<forall>p. p \<noteq> outp \<longrightarrow> files' p = files p)
       \<and> ((\<exists>e. res = Inl e \<and> e \<noteq> WriteFailed) \<or> flt = FailOpen \<longrightarrow> files' = files)
       \<and> (flt = NoFault \<and> res = Inr () \<longrightarrow>
            (\<exists>content lf df df_out. files inp = Some content \<and> scan_csv env content = Some lf
               \<and> cast_frame env n lf = Inr df \<and> unique_rel (frame_rows df) df_out
               \<and> files' outp = Some (write_csv_text env (map fst df) df_out)))
       \<and> (files' = files
            \<or> (\<exists>content lf df df_out k. files inp = Some content \<and> scan_csv env content = Some lf
                  \<and> cast_frame env n lf = Inr df \<and> unique_rel (frame_rows df) df_out
                  \<and> files' outp = Some (take k (write_csv_text env (map fst df) df_out))))"
proof -
  have 1: "\<forall>p. p \<noteq> outp \<longrightarrow> files' p = files p"
    using clean_csv_other_paths [OF assms] by simp
  have 2: "(\<exists>e. res = Inl e \<and> e \<noteq> WriteFailed) \<or> flt = FailOpen \<longrightarrow> files' = files"
    using clean_csv_unchanged [OF assms] by blast
  have 3: "flt = NoFault \<and> res = Inr () \<longrightarrow>
            (\<exists>content lf df df_out. files inp = Some content \<and> scan_csv env content = Some lf
               \<and> cast_frame env n lf = Inr df \<and> unique_rel (frame_rows df) df_out
               \<and> files' outp = Some (write_csv_text env (map fst df) df_out))"
    using clean_csv_no_fault [of env n files inp outp files'] assms by blast
  show ?thesis using 1 2 3 clean_csv_prefix [OF assms] by blast
qed


text \<open>
  A run that succeeds, a run whose destination cannot be opened and a run whose frame cannot
  be collected.
\<close>

theorem clean_csv_destination_witness:
  "clean_csv plain_env NoFault 1000 people_files (str ''in.csv'') (str ''out.csv'')
     (people_files(str ''out.csv'' \<mapsto> alice_first_csv), Inr ())
   \<and> (people_files(str ''out.csv'' \<mapsto> alice_first_csv)) (str ''in.csv'') = people_files (str ''in.csv'')
   \<and> (\<exists>content lf df df_out. people_files (str ''in.csv'') = Some content
         \<and> scan_csv plain_env content = Some lf \<and> cast_frame plain_env 1000 lf = Inr df
         \<and> unique_rel (frame_rows df) df_out
         \<and> (people_files(str ''out.csv'' \<mapsto> alice_first_csv)) (str ''out.csv'')
             = Some (write_csv_text plain_env (map fst df) df_out))
   \<and> clean_csv plain_env FailOpen 1000 people_files (str ''in.csv'') (str ''out.csv'')
       (people_files, Inl WriteFailed)
   \<and> clean_csv plain_env NoFault 1000 when_files (str ''in.csv'') (str ''out.csv'')
       (when_files, Inl CollectError)
   \<and> CollectError \<noteq> WriteFailed"
proof -
  have ok: "clean_csv plain_env NoFault 1000 people_files (str ''in.csv'') (str ''out.csv'')
     (people_files(str ''out.csv'' \<mapsto> alice_first_csv), Inr ())"
    using people_run [OF first_seen_unique, of NoFault] by (simp add: write_csv_def alice_first_text)
  have bad: "clean_csv plain_env FailOpen 1000 people_files (str ''in.csv'') (str ''out.csv'')
     (people_files, Inl WriteFailed)"
    using people_run [OF first_seen_unique, of FailOpen] by (simp add: write_csv_def)
  have f: "when_files (str ''in.csv'') = Some when_csv" by (simp add: when_files_def str_def)
  have s: "scan_csv plain_env when_csv = Some [(str ''When'', Utf8 jan_alone)]" by code_simp
  have d: "distinct (map (sanitize_column_name \<circ> fst) [(str ''When'', Utf8 jan_alone)])" by simp
  have c: "cast_frame plain_env 1000 [(str ''When'', Utf8 jan_alone)] = Inl CollectError" by code_simp
  have col: "clean_csv plain_env NoFault 1000 when_files (str ''in.csv'') (str ''out.csv'')
       (when_files, Inl CollectError)"
    by (rule clean_csv.collect_failed [where content = when_csv and lf = "[(str ''When'', Utf8 jan_alone)]"])
       (rule f s d c)+
  have ne: "str ''in.csv'' \<noteq> str ''out.csv''" by code_simp
  show ?thesis
    using ok bad col ne clean_csv_destination [OF ok] clean_csv_destination [OF bad]
      clean_csv_destination [OF col]
    by simp
qed

end
